theory Spec2Isabelle
  imports Main "HOL-Library.Sublist" "HOL-Library.Word"
begin

section \<open>The import-grouping check of \<^verbatim>\<open>main.go\<close>\<close>

text \<open>
  The check classifies every import path of a Go file, folds consecutive imports of one
  type into groups, and then judges the order of the groups and the blank lines between
  them. The definitions below follow \<^verbatim>\<open>src/main.go\<close> function by function.
\<close>

subsection \<open>Data\<close>

text \<open>
  Go's \<^verbatim>\<open>int\<close> (line numbers) on a 64-bit platform: addition wraps around.
\<close>

type_synonym line = "64 word"

text \<open>\<^verbatim>\<open>type Settings struct\<close> (lines 16-19).\<close>

record Settings =
  SelfModule :: string
  InternalPrivateDomains :: "string list"

text \<open>\<^verbatim>\<open>type ImportGroup struct\<close> (lines 60-64); the import type is a string in the source.\<close>

record ImportGroup =
  startLine :: line
  endLine :: line
  importType :: string

subsection \<open>String helpers of Go's \<^verbatim>\<open>strings\<close> package\<close>

text \<open>
  \<^verbatim>\<open>strings.HasPrefix(s, prefix)\<close> is
  \<^verbatim>\<open>len(s) >= len(prefix) && s[:len(prefix)] == prefix\<close>.
\<close>

definition HasPrefix :: "string \<Rightarrow> string \<Rightarrow> bool" where
  "HasPrefix s pre = (length pre \<le> length s \<and> take (length pre) s = pre)"

text \<open>
  \<^verbatim>\<open>strings.Contains(s, substr)\<close>: \<^verbatim>\<open>substr\<close> occurs at some offset of
  \<^verbatim>\<open>s\<close>; the empty string occurs in every string.
\<close>

fun Contains :: "string \<Rightarrow> string \<Rightarrow> bool" where
  "Contains [] substr = (substr = [])"
| "Contains (c # s) substr = (HasPrefix (c # s) substr \<or> Contains s substr)"

subsection \<open>The classifier\<close>

text \<open>
  \<^verbatim>\<open>isInternalPrivateImport\<close> (lines 134-141): the loop over the configured domains,
  returning at the first one the path contains.
\<close>

fun isInternalPrivateImport_loop :: "string \<Rightarrow> string list \<Rightarrow> bool" where
  "isInternalPrivateImport_loop path [] = False"
| "isInternalPrivateImport_loop path (domain # domains) =
     (if Contains path domain then True else isInternalPrivateImport_loop path domains)"

definition isInternalPrivateImport :: "string \<Rightarrow> Settings \<Rightarrow> bool" where
  "isInternalPrivateImport path settings =
     isInternalPrivateImport_loop path (InternalPrivateDomains settings)"

text \<open>
  \<^verbatim>\<open>isBuiltinImport\<close> (lines 143-147) asks the file system whether
  \<^verbatim>\<open>GOROOT/src/path\<close> exists. The file system is a parameter: \<open>goroot_src p\<close> says
  that \<^verbatim>\<open>os.Stat\<close> of that joined path returns no error.
\<close>

definition isBuiltinImport :: "(string \<Rightarrow> bool) \<Rightarrow> string \<Rightarrow> bool" where
  "isBuiltinImport goroot_src path = goroot_src path"

text \<open>\<^verbatim>\<open>getImportType\<close> (lines 106-116).\<close>

definition getImportType :: "(string \<Rightarrow> bool) \<Rightarrow> string \<Rightarrow> Settings \<Rightarrow> string" where
  "getImportType goroot_src path settings =
     (if isInternalPrivateImport path settings then ''internal_private''
      else if HasPrefix path (SelfModule settings) then ''own_module''
      else if isBuiltinImport goroot_src path then ''builtin''
      else ''public_open_source_or_third_party'')"

subsection \<open>The parsed file\<close>

text \<open>
  What \<^verbatim>\<open>getImportGroups\<close> reads of the \<^verbatim>\<open>go/ast\<close> tree: the declarations of the
  file, the token and the specs of a general declaration, and of an import spec the
  path literal (with its quotes) and the lines that the file set resolves
  \<^verbatim>\<open>Pos()\<close> and \<^verbatim>\<open>End()\<close> to.
\<close>

datatype Token = IMPORT | CONST | TYPE | VAR

datatype Spec = ImportSpec string line line | ValueSpec | TypeSpec

datatype Decl = GenDecl Token "Spec list" | FuncDecl | BadDecl

text \<open>The two run-time panics that the loop body can raise.\<close>

datatype panic = InterfaceConversion | SliceBoundsOutOfRange

subsection \<open>The grouper\<close>

text \<open>The two loop variables of \<^verbatim>\<open>getImportGroups\<close> (lines 68-69).\<close>

record loop_state =
  groups :: "ImportGroup list"
  currentGroup :: "ImportGroup option"

text \<open>
  Lines 77-93, the part of the loop body after the path is unquoted: classify the path,
  then start a new group or extend the current one.
\<close>

definition group_step ::
  "(string \<Rightarrow> bool) \<Rightarrow> Settings \<Rightarrow> loop_state \<Rightarrow> string \<times> line \<times> line \<Rightarrow> loop_state" where
  "group_step goroot_src settings st r =
     (case r of (importPath, posLine, endPosLine) \<Rightarrow>
        let ty = getImportType goroot_src importPath settings in
        (case currentGroup st of
           None \<Rightarrow>
             st\<lparr>currentGroup :=
                  Some \<lparr>startLine = posLine, endLine = endPosLine, importType = ty\<rparr>\<rparr>
         | Some cur \<Rightarrow>
             if importType cur \<noteq> ty
             then st\<lparr>groups := groups st @ [cur],
                     currentGroup :=
                       Some \<lparr>startLine = posLine, endLine = endPosLine, importType = ty\<rparr>\<rparr>
             else st\<lparr>currentGroup := Some (cur\<lparr>endLine := endPosLine\<rparr>)\<rparr>))"

text \<open>
  Lines 73-94, the loop over the specs of one import declaration. The type assertion
  \<^verbatim>\<open>spec.(*ast.ImportSpec)\<close> panics on any other spec, and the slice
  \<^verbatim>\<open>Value[1 : len(Value)-1]\<close> panics when the literal has fewer than two bytes.
\<close>

fun specs_loop ::
  "(string \<Rightarrow> bool) \<Rightarrow> Settings \<Rightarrow> Spec list \<Rightarrow> loop_state \<Rightarrow> panic + loop_state" where
  "specs_loop goroot_src settings [] st = Inr st"
| "specs_loop goroot_src settings (ImportSpec v posLine endPosLine # specs) st =
     (if length v < 2 then Inl SliceBoundsOutOfRange
      else specs_loop goroot_src settings specs
             (group_step goroot_src settings st (butlast (tl v), posLine, endPosLine)))"
| "specs_loop goroot_src settings (_ # specs) st = Inl InterfaceConversion"

text \<open>Lines 71-96, the loop over the declarations.\<close>

fun decls_loop ::
  "(string \<Rightarrow> bool) \<Rightarrow> Settings \<Rightarrow> Decl list \<Rightarrow> loop_state \<Rightarrow> panic + loop_state" where
  "decls_loop goroot_src settings [] st = Inr st"
| "decls_loop goroot_src settings (GenDecl tok specs # decls) st =
     (if tok = IMPORT
      then (case specs_loop goroot_src settings specs st of
              Inl p \<Rightarrow> Inl p
            | Inr st' \<Rightarrow> decls_loop goroot_src settings decls st')
      else decls_loop goroot_src settings decls st)"
| "decls_loop goroot_src settings (_ # decls) st = decls_loop goroot_src settings decls st"

text \<open>Lines 98-102: the group still open after the loop is appended.\<close>

definition close_groups :: "loop_state \<Rightarrow> ImportGroup list" where
  "close_groups st =
     (case currentGroup st of None \<Rightarrow> groups st | Some cur \<Rightarrow> groups st @ [cur])"

text \<open>
  \<^verbatim>\<open>getImportGroups\<close> (lines 67-103). Its error result is always \<^verbatim>\<open>nil\<close>, so the
  model returns the groups, or the panic.
\<close>

definition getImportGroups ::
  "(string \<Rightarrow> bool) \<Rightarrow> Decl list \<Rightarrow> Settings \<Rightarrow> panic + ImportGroup list" where
  "getImportGroups goroot_src node settings =
     (case decls_loop goroot_src settings node \<lparr>groups = [], currentGroup = None\<rparr> of
        Inl p \<Rightarrow> Inl p
      | Inr st \<Rightarrow> Inr (close_groups st))"

subsection \<open>The validator\<close>

definition expectedSequence :: "string list" where
  "expectedSequence =
     [''builtin'', ''public_open_source_or_third_party'', ''internal_private'', ''own_module'']"

text \<open>\<^verbatim>\<open>areImportsGrouped\<close> (lines 119-130): the loop with its index.\<close>

fun areImportsGrouped_loop :: "nat \<Rightarrow> ImportGroup list \<Rightarrow> bool" where
  "areImportsGrouped_loop i [] = True"
| "areImportsGrouped_loop i (g # gs) =
     (if i < length expectedSequence \<and> importType g \<noteq> expectedSequence ! i then False
      else areImportsGrouped_loop (Suc i) gs)"

definition areImportsGrouped :: "ImportGroup list \<Rightarrow> bool" where
  "areImportsGrouped gs = areImportsGrouped_loop 0 gs"

text \<open>
  The errors \<^verbatim>\<open>Run\<close> returns: the error of the JSON round trip of the settings,
  \<^verbatim>\<open>"Warning: Imports are not properly grouped in file %s"\<close> with the file name, and
  \<^verbatim>\<open>"Warning: Missing single line break before %d"\<close> with the start line of a group.
\<close>

datatype run_error = JSONError string | UngroupedImports string | MissingBlankLine line

text \<open>
  Lines 50-54 of \<^verbatim>\<open>Run\<close>: the loop over the groups with its index; \<open>all\<close> is the
  whole slice, read at \<open>i - 1\<close> only when \<open>0 < i\<close>.
\<close>

fun spacing_loop :: "ImportGroup list \<Rightarrow> nat \<Rightarrow> ImportGroup list \<Rightarrow> run_error option" where
  "spacing_loop all i [] = None"
| "spacing_loop all i (g # gs) =
     (if 0 < i then
        (if startLine g \<noteq> endLine (all ! (i - 1)) + 2 then Some (MissingBlankLine (startLine g))
         else spacing_loop all (Suc i) gs)
      else spacing_loop all (Suc i) gs)"

text \<open>Lines 44-56 of \<^verbatim>\<open>Run\<close>: the two checks on the groups, in the source's order.\<close>

definition validate :: "string \<Rightarrow> ImportGroup list \<Rightarrow> run_error option" where
  "validate filename importGroups =
     (if \<not> areImportsGrouped importGroups then Some (UngroupedImports filename)
      else spacing_loop importGroups 0 importGroups)"

subsection \<open>The entry point\<close>

text \<open>
  What \<^verbatim>\<open>Run\<close> takes from outside: the two JSON steps that turn the metadata into
  the settings, the parser, and the file system under \<^verbatim>\<open>GOROOT/src\<close>. Each fallible
  step gives its error message on the left.
\<close>

record 'm environment =
  Marshal :: "'m \<Rightarrow> string + string"
  Unmarshal :: "string \<Rightarrow> string + Settings"
  ParseFile :: "string \<Rightarrow> string + Decl list"
  goroot :: "string \<Rightarrow> bool"

text \<open>
  How a call of \<^verbatim>\<open>Run\<close> ends: it returns (the byte slice is always \<^verbatim>\<open>nil\<close>, the
  error may be), or \<^verbatim>\<open>log.Fatalf\<close> prints its message and exits the process, or
  the grouper panics.
\<close>

datatype run_result = Returned "run_error option" | LogFatal string | Panicked panic

text \<open>
  \<^verbatim>\<open>Run\<close> (lines 21-57). The second \<^verbatim>\<open>log.Fatalf\<close> (line 41) needs a non-nil error
  of \<^verbatim>\<open>getImportGroups\<close>, which never returns one; it has no branch here.
\<close>

definition Run :: "'m environment \<Rightarrow> string \<Rightarrow> 'm \<Rightarrow> run_result" where
  "Run env filename metaData =
     (case Marshal env metaData of
        Inl err \<Rightarrow> Returned (Some (JSONError err))
      | Inr marshal \<Rightarrow>
          (case Unmarshal env marshal of
             Inl err \<Rightarrow> Returned (Some (JSONError err))
           | Inr settings \<Rightarrow>
               (case ParseFile env filename of
                  Inl err \<Rightarrow> LogFatal (''Failed to parse file: '' @ err)
                | Inr node \<Rightarrow>
                    (case getImportGroups (goroot env) node settings of
                       Inl p \<Rightarrow> Panicked p
                     | Inr importGroups \<Rightarrow> Returned (validate filename importGroups)))))"

section \<open>Specification-side notions\<close>

text \<open>
  The import records of a file in file order, as the loops of \<open>getImportGroups\<close> meet
  them: the unquoted path with the two lines of every spec of every import declaration,
  or the panic of the first spec that raises one.
\<close>

type_synonym import_record = "string \<times> line \<times> line"

fun spec_records :: "Spec list \<Rightarrow> panic + import_record list" where
  "spec_records [] = Inr []"
| "spec_records (ImportSpec v posLine endPosLine # specs) =
     (if length v < 2 then Inl SliceBoundsOutOfRange
      else (case spec_records specs of
              Inl p \<Rightarrow> Inl p
            | Inr rs \<Rightarrow> Inr ((butlast (tl v), posLine, endPosLine) # rs)))"
| "spec_records (_ # specs) = Inl InterfaceConversion"

fun import_records :: "Decl list \<Rightarrow> panic + import_record list" where
  "import_records [] = Inr []"
| "import_records (GenDecl tok specs # decls) =
     (if tok = IMPORT
      then (case spec_records specs of
              Inl p \<Rightarrow> Inl p
            | Inr rs \<Rightarrow>
                (case import_records decls of Inl p \<Rightarrow> Inl p | Inr rs' \<Rightarrow> Inr (rs @ rs')))
      else import_records decls)"
| "import_records (_ # decls) = import_records decls"

text \<open>A file with one import declaration that holds the given records, paths quoted.\<close>

definition spec_of_record :: "import_record \<Rightarrow> Spec" where
  "spec_of_record r =
     (case r of (p, posLine, endPosLine) \<Rightarrow>
        ImportSpec (CHR 0x22 # p @ [CHR 0x22]) posLine endPosLine)"

definition file_of_records :: "import_record list \<Rightarrow> Decl list" where
  "file_of_records rs = [GenDecl IMPORT (map spec_of_record rs)]"

text \<open>
  The maximal runs of a sequence under a labelling \<open>cat\<close>: a run is an element with all
  the elements after it that carry its label, up to the first one that does not.
\<close>

function maximal_runs :: "('a \<Rightarrow> 'c) \<Rightarrow> 'a list \<Rightarrow> 'a list list" where
  "maximal_runs cat [] = []"
| "maximal_runs cat (r # rs) =
     (r # takeWhile (\<lambda>x. cat x = cat r) rs)
       # maximal_runs cat (dropWhile (\<lambda>x. cat x = cat r) rs)"
  by pat_completeness auto
termination
  by (relation "measure (\<lambda>(cat, rs). length rs)")
     (auto simp: length_dropWhile_le less_Suc_eq_le)

definition record_type :: "(string \<Rightarrow> bool) \<Rightarrow> Settings \<Rightarrow> import_record \<Rightarrow> string" where
  "record_type goroot_src settings r = getImportType goroot_src (fst r) settings"

text \<open>
  The group that stands for a run: from the start line of its first record to the end
  line of its last one, with the type of its first record.
\<close>

definition group_of_run ::
  "(string \<Rightarrow> bool) \<Rightarrow> Settings \<Rightarrow> import_record list \<Rightarrow> ImportGroup" where
  "group_of_run goroot_src settings run =
     \<lparr>startLine = fst (snd (hd run)), endLine = snd (snd (last run)),
      importType = record_type goroot_src settings (hd run)\<rparr>"

text \<open>The whole loop of \<open>getImportGroups\<close> over a sequence of records, from a given state.\<close>

definition group_records ::
  "(string \<Rightarrow> bool) \<Rightarrow> Settings \<Rightarrow> loop_state \<Rightarrow> import_record list \<Rightarrow> loop_state" where
  "group_records goroot_src settings st rs = foldl (group_step goroot_src settings) st rs"

section \<open>Example inputs\<close>

text \<open>A configuration, a standard library with two packages, and a path literal in quotes.\<close>

definition example_settings :: Settings where
  "example_settings = \<lparr>SelfModule = ''example.com/app'', InternalPrivateDomains = [''corp.io'']\<rparr>"

definition example_goroot :: "string \<Rightarrow> bool" where
  "example_goroot p = (p = ''fmt'' \<or> p = ''os'')"

definition quoted :: "string \<Rightarrow> string" where
  "quoted p = CHR 0x22 # p @ [CHR 0x22]"

text \<open>
  A file with two import declarations, followed by a function: two standard-library
  imports on lines 3 and 4, and a third-party import on line 8.
\<close>

definition example_file :: "Decl list" where
  "example_file =
     [GenDecl IMPORT [ImportSpec (quoted ''fmt'') 3 3, ImportSpec (quoted ''os'') 4 4],
      GenDecl IMPORT [ImportSpec (quoted ''gh.com/x'') 8 8],
      FuncDecl]"

text \<open>An environment whose parser rejects every file.\<close>

definition parse_failure_environment :: "unit environment" where
  "parse_failure_environment =
     \<lparr>Marshal = (\<lambda>m. Inr ''{}''),
      Unmarshal = (\<lambda>b. Inr example_settings),
      ParseFile = (\<lambda>f. Inl ''expected package''),
      goroot = example_goroot\<rparr>"

text \<open>Five groups, each one blank line after the one before; the fifth repeats the first type.\<close>

definition five_groups :: "ImportGroup list" where
  "five_groups =
     [\<lparr>startLine = 3, endLine = 3, importType = ''builtin''\<rparr>,
      \<lparr>startLine = 5, endLine = 5, importType = ''public_open_source_or_third_party''\<rparr>,
      \<lparr>startLine = 7, endLine = 7, importType = ''internal_private''\<rparr>,
      \<lparr>startLine = 9, endLine = 9, importType = ''own_module''\<rparr>,
      \<lparr>startLine = 11, endLine = 11, importType = ''builtin''\<rparr>]"

text \<open>Three groups in which the standard-library type comes back after a third-party group.\<close>

definition split_groups :: "ImportGroup list" where
  "split_groups =
     [\<lparr>startLine = 3, endLine = 3, importType = ''builtin''\<rparr>,
      \<lparr>startLine = 5, endLine = 5, importType = ''public_open_source_or_third_party''\<rparr>,
      \<lparr>startLine = 7, endLine = 7, importType = ''builtin''\<rparr>]"

text \<open>Whether a call of \<open>Run\<close> came back to its caller with a value.\<close>

definition returns_value :: "run_result \<Rightarrow> bool" where
  "returns_value r = (case r of Returned e \<Rightarrow> True | LogFatal msg \<Rightarrow> False | Panicked p \<Rightarrow> False)"

section \<open>Properties of the string helpers\<close>

lemma HasPrefix_iff_prefix: "HasPrefix s pre \<longleftrightarrow> prefix pre s"
proof
  assume "HasPrefix s pre"
  then have "pre = take (length pre) s" by (simp add: HasPrefix_def)
  then show "prefix pre s" by (metis take_is_prefix)
next
  assume "prefix pre s"
  then obtain zs where "s = pre @ zs" by (auto simp: prefix_def)
  then show "HasPrefix s pre" by (simp add: HasPrefix_def)
qed

lemma HasPrefix_empty: "HasPrefix s []"
  by (simp add: HasPrefix_def)

lemma Contains_iff_sublist: "Contains s substr \<longleftrightarrow> sublist substr s"
  by (induction s) (auto simp: HasPrefix_iff_prefix sublist_Cons_right)

lemma isInternalPrivateImport_loop_iff:
  "isInternalPrivateImport_loop path domains \<longleftrightarrow> (\<exists>d \<in> set domains. Contains path d)"
  by (induction domains) auto

section \<open>The grouper as a fold over the import records\<close>

lemma group_records_Nil: "group_records g s st [] = st"
  by (simp add: group_records_def)

lemma group_records_Cons:
  "group_records g s st (r # rs) = group_records g s (group_step g s st r) rs"
  by (simp add: group_records_def)

lemma group_records_append:
  "group_records g s st (xs @ ys) = group_records g s (group_records g s st xs) ys"
  by (simp add: group_records_def)

lemma group_step_same:
  "record_type g s r = importType cur \<Longrightarrow>
   group_step g s \<lparr>groups = G, currentGroup = Some cur\<rparr> r =
     \<lparr>groups = G, currentGroup = Some (cur\<lparr>endLine := snd (snd r)\<rparr>)\<rparr>"
  by (cases r) (simp add: group_step_def record_type_def)

lemma group_step_other:
  "record_type g s r \<noteq> importType cur \<Longrightarrow>
   group_step g s \<lparr>groups = G, currentGroup = Some cur\<rparr> r =
     \<lparr>groups = G @ [cur], currentGroup = Some \<lparr>startLine = fst (snd r), endLine = snd (snd r),
        importType = record_type g s r\<rparr>\<rparr>"
  by (cases r) (auto simp add: group_step_def record_type_def)

lemma group_step_first:
  "group_step g s \<lparr>groups = G, currentGroup = None\<rparr> r =
     \<lparr>groups = G, currentGroup = Some \<lparr>startLine = fst (snd r), endLine = snd (snd r),
        importType = record_type g s r\<rparr>\<rparr>"
  by (cases r) (simp add: group_step_def record_type_def)

lemma group_of_run_Cons:
  "group_of_run g s (r # run) =
     \<lparr>startLine = fst (snd r),
      endLine = (if run = [] then snd (snd r) else snd (snd (last run))),
      importType = record_type g s r\<rparr>"
  by (simp add: group_of_run_def)

lemma specs_loop_records:
  "specs_loop g s specs st =
     (case spec_records specs of Inl p \<Rightarrow> Inl p | Inr rs \<Rightarrow> Inr (group_records g s st rs))"
  by (induction g s specs st rule: specs_loop.induct)
     (auto simp: group_records_def split: sum.splits)

lemma decls_loop_records:
  "decls_loop g s decls st =
     (case import_records decls of Inl p \<Rightarrow> Inl p | Inr rs \<Rightarrow> Inr (group_records g s st rs))"
  by (induction g s decls st rule: decls_loop.induct)
     (auto simp: group_records_def specs_loop_records split: sum.splits)

lemma close_groups_open:
  "close_groups (group_records g s \<lparr>groups = G, currentGroup = Some cur\<rparr> rs) =
     G @ (cur\<lparr>endLine :=
              (if takeWhile (\<lambda>x. record_type g s x = importType cur) rs = [] then endLine cur
               else snd (snd (last (takeWhile (\<lambda>x. record_type g s x = importType cur) rs))))\<rparr>)
       # map (group_of_run g s)
           (maximal_runs (record_type g s)
              (dropWhile (\<lambda>x. record_type g s x = importType cur) rs))"
proof (induction rs arbitrary: G cur)
  case Nil
  show ?case by (simp add: group_records_Nil close_groups_def)
next
  case (Cons r rs)
  show ?case
  proof (cases "record_type g s r = importType cur")
    case True
    then show ?thesis
      by (simp add: group_records_Cons group_step_same Cons.IH)
  next
    case False
    then show ?thesis
      by (simp add: group_records_Cons group_step_other Cons.IH group_of_run_Cons)
  qed
qed

lemma close_groups_initial:
  "close_groups (group_records g s \<lparr>groups = [], currentGroup = None\<rparr> rs) =
     map (group_of_run g s) (maximal_runs (record_type g s) rs)"
proof (cases rs)
  case Nil
  then show ?thesis by (simp add: group_records_Nil close_groups_def)
next
  case (Cons r rs')
  then show ?thesis
    by (simp add: group_records_Cons group_step_first close_groups_open group_of_run_Cons)
qed

lemma getImportGroups_records:
  "getImportGroups g node s =
     (case import_records node of
        Inl p \<Rightarrow> Inl p
      | Inr rs \<Rightarrow> Inr (close_groups (group_records g s \<lparr>groups = [], currentGroup = None\<rparr> rs)))"
  by (simp add: getImportGroups_def decls_loop_records split: sum.splits)

lemma concat_maximal_runs: "concat (maximal_runs cat rs) = rs"
  by (induction cat rs rule: maximal_runs.induct) simp_all

lemma maximal_runs_nonempty: "run \<in> set (maximal_runs cat rs) \<Longrightarrow> run \<noteq> []"
  by (induction cat rs rule: maximal_runs.induct) auto

lemma maximal_runs_constant:
  "run \<in> set (maximal_runs cat rs) \<Longrightarrow> x \<in> set run \<Longrightarrow> cat x = cat (hd run)"
  by (induction cat rs rule: maximal_runs.induct) (auto dest: set_takeWhileD)

lemma hd_hd_maximal_runs: "rs \<noteq> [] \<Longrightarrow> hd (hd (maximal_runs cat rs)) = hd rs"
  by (cases rs) simp_all

lemma maximal_runs_eq_Nil: "maximal_runs cat rs = [] \<longleftrightarrow> rs = []"
  by (cases rs) simp_all

lemma maximal_runs_adjacent:
  "Suc i < length (maximal_runs cat rs) \<Longrightarrow>
   cat (hd (maximal_runs cat rs ! Suc i)) \<noteq> cat (hd (maximal_runs cat rs ! i))"
proof (induction cat rs arbitrary: i rule: maximal_runs.induct)
  case (1 cat)
  then show ?case by simp
next
  case (2 cat r rs)
  let ?dw = "dropWhile (\<lambda>x. cat x = cat r) rs"
  show ?case
  proof (cases i)
    case 0
    with 2 have ne: "?dw \<noteq> []" by (auto simp: maximal_runs_eq_Nil)
    then have "cat (hd ?dw) \<noteq> cat r" using hd_dropWhile[of "\<lambda>x. cat x = cat r" rs] by simp
    with 0 ne show ?thesis
      by (simp add: hd_conv_nth[symmetric] maximal_runs_eq_Nil hd_hd_maximal_runs)
  next
    case (Suc j)
    with 2 show ?thesis by simp
  qed
qed

lemma import_records_file_of_records: "import_records (file_of_records rs) = Inr rs"
proof -
  have "spec_records (map spec_of_record rs) = Inr rs"
    by (induction rs) (auto simp: spec_of_record_def butlast_append split: prod.splits)
  then show ?thesis by (simp add: file_of_records_def)
qed

section \<open>The two loops of the validator\<close>

lemma distinct_expectedSequence: "distinct expectedSequence"
  by (simp add: expectedSequence_def)

lemma length_expectedSequence: "length expectedSequence = 4"
  by (simp add: expectedSequence_def)

lemma areImportsGrouped_loop_iff:
  "areImportsGrouped_loop i gs \<longleftrightarrow>
     (\<forall>k<length gs. i + k < length expectedSequence \<longrightarrow>
        importType (gs ! k) = expectedSequence ! (i + k))"
proof (induction gs arbitrary: i)
  case Nil
  show ?case by simp
next
  case (Cons g gs)
  show ?case
    by (auto simp: Cons.IH less_Suc_eq_0_disj)
qed

lemma areImportsGrouped_iff:
  "areImportsGrouped gs \<longleftrightarrow>
     (\<forall>k<length gs. k < 4 \<longrightarrow> importType (gs ! k) = expectedSequence ! k)"
  by (simp add: areImportsGrouped_def areImportsGrouped_loop_iff length_expectedSequence)

lemma spacing_loop_None:
  "i \<le> length all \<Longrightarrow>
   spacing_loop all i (drop i all) = None \<longleftrightarrow>
     (\<forall>k. i \<le> k \<and> k < length all \<and> 0 < k \<longrightarrow>
        startLine (all ! k) = endLine (all ! (k - 1)) + 2)"
proof (induction "length all - i" arbitrary: i)
  case 0
  then show ?case by auto
next
  case (Suc n)
  then have lt: "i < length all" by simp
  then have d: "drop i all = all ! i # drop (Suc i) all"
    by (simp add: Cons_nth_drop_Suc)
  from Suc lt have ih: "spacing_loop all (Suc i) (drop (Suc i) all) = None \<longleftrightarrow>
     (\<forall>k. Suc i \<le> k \<and> k < length all \<and> 0 < k \<longrightarrow>
        startLine (all ! k) = endLine (all ! (k - 1)) + 2)"
    by simp
  have split: "\<And>P. (\<forall>k. i \<le> k \<and> k < length all \<and> 0 < k \<longrightarrow> P k) \<longleftrightarrow>
      ((0 < i \<longrightarrow> P i) \<and> (\<forall>k. Suc i \<le> k \<and> k < length all \<and> 0 < k \<longrightarrow> P k))"
    using lt by (metis Suc_leI le_neq_implies_less order_refl Suc_le_lessD less_imp_le_nat)
  show ?case
  proof (cases "0 < i")
    case True
    then show ?thesis unfolding d split[of "\<lambda>k. startLine (all ! k) = endLine (all ! (k - 1)) + 2"]
      using ih by auto
  next
    case False
    then have "i = 0" by simp
    then show ?thesis unfolding d split[of "\<lambda>k. startLine (all ! k) = endLine (all ! (k - 1)) + 2"]
      using ih by simp
  qed
qed

lemma spacing_loop_Some:
  "i \<le> k \<Longrightarrow> k < length all \<Longrightarrow> 0 < k \<Longrightarrow>
   startLine (all ! k) \<noteq> endLine (all ! (k - 1)) + 2 \<Longrightarrow>
   (\<forall>j. i \<le> j \<and> j < k \<and> 0 < j \<longrightarrow> startLine (all ! j) = endLine (all ! (j - 1)) + 2) \<Longrightarrow>
   spacing_loop all i (drop i all) = Some (MissingBlankLine (startLine (all ! k)))"
proof (induction "k - i" arbitrary: i)
  case 0
  then have "i = k" by simp
  with 0 show ?case by (simp add: Cons_nth_drop_Suc[symmetric])
next
  case (Suc n)
  then have lt: "i < k" by simp
  with Suc have d: "drop i all = all ! i # drop (Suc i) all"
    by (simp add: Cons_nth_drop_Suc)
  from Suc lt have ih: "spacing_loop all (Suc i) (drop (Suc i) all) =
      Some (MissingBlankLine (startLine (all ! k)))"
    by simp
  from Suc.prems lt have "0 < i \<longrightarrow> startLine (all ! i) = endLine (all ! (i - 1)) + 2"
    by simp
  then show ?case unfolding d using ih by auto
qed

lemma validate_spacing:
  "areImportsGrouped gs \<Longrightarrow> validate f gs = spacing_loop gs 0 (drop 0 gs)"
  by (simp add: validate_def)

lemma blank_lines_not_one:
  "n < 2 ^ 64 \<Longrightarrow> n \<noteq> 1 \<Longrightarrow> (a::line) + 1 + of_nat n \<noteq> a + 2"
proof
  assume n: "n < 2 ^ 64" "n \<noteq> 1" and eq: "a + 1 + of_nat n = a + 2"
  then have "(of_nat n :: line) = 1" by simp
  then have "unat (of_nat n :: line) = 1" by simp
  with n show False by (simp add: unat_of_nat)
qed

section \<open>Import records of appended declarations\<close>

lemma spec_records_append:
  "spec_records (a @ b) =
     (case spec_records a of
        Inl p \<Rightarrow> Inl p
      | Inr ra \<Rightarrow> (case spec_records b of Inl p \<Rightarrow> Inl p | Inr rb \<Rightarrow> Inr (ra @ rb)))"
  by (induction a rule: spec_records.induct) (auto split: sum.splits)

lemma import_records_append:
  "import_records (a @ b) =
     (case import_records a of
        Inl p \<Rightarrow> Inl p
      | Inr ra \<Rightarrow> (case import_records b of Inl p \<Rightarrow> Inl p | Inr rb \<Rightarrow> Inr (ra @ rb)))"
  by (induction a rule: import_records.induct) (auto split: sum.splits)

lemma group_step_merge:
  assumes "getImportType g p1 s = getImportType g p2 s"
  shows "group_step g s (group_step g s st (p1, l1, e1)) (p2, l2, e2) =
         group_step g s st (p1, l1, e2)"
  using assms by (cases "currentGroup st") (auto simp: group_step_def Let_def)

lemma import_records_two_blocks:
  "import_records (ds1 @ GenDecl IMPORT s1 # GenDecl IMPORT s2 # ds2) =
   import_records (ds1 @ GenDecl IMPORT (s1 @ s2) # ds2)"
proof -
  have "import_records (GenDecl IMPORT s1 # GenDecl IMPORT s2 # ds2) =
        import_records (GenDecl IMPORT (s1 @ s2) # ds2)"
    by (simp add: spec_records_append split: sum.splits)
  then show ?thesis by (simp only: import_records_append)
qed

lemma import_records_neighbours:
  assumes "2 \<le> length v1" "2 \<le> length v2"
  shows "import_records (ds1 @ GenDecl IMPORT (a @ ImportSpec v1 p1 e1 # ImportSpec v2 p2 e2 # b) # ds2) =
     (case import_records ds1 of Inl p \<Rightarrow> Inl p | Inr r1 \<Rightarrow>
      case spec_records a of Inl p \<Rightarrow> Inl p | Inr ra \<Rightarrow>
      case spec_records b of Inl p \<Rightarrow> Inl p | Inr rb \<Rightarrow>
      case import_records ds2 of Inl p \<Rightarrow> Inl p | Inr r2 \<Rightarrow>
        Inr ((r1 @ ra) @ (butlast (tl v1), p1, e1) # (butlast (tl v2), p2, e2) # rb @ r2))"
  using assms by (auto simp: import_records_append spec_records_append split: sum.splits)

lemma import_records_merged:
  assumes "2 \<le> length v1"
  shows "import_records (ds1 @ GenDecl IMPORT (a @ ImportSpec v1 p1 e2 # b) # ds2) =
     (case import_records ds1 of Inl p \<Rightarrow> Inl p | Inr r1 \<Rightarrow>
      case spec_records a of Inl p \<Rightarrow> Inl p | Inr ra \<Rightarrow>
      case spec_records b of Inl p \<Rightarrow> Inl p | Inr rb \<Rightarrow>
      case import_records ds2 of Inl p \<Rightarrow> Inl p | Inr r2 \<Rightarrow>
        Inr ((r1 @ ra) @ (butlast (tl v1), p1, e2) # rb @ r2))"
  using assms by (auto simp: import_records_append spec_records_append split: sum.splits)

lemma getImportGroups_neighbours:
  assumes "2 \<le> length v1" "2 \<le> length v2"
    and "getImportType g (butlast (tl v1)) s = getImportType g (butlast (tl v2)) s"
  shows "getImportGroups g
           (ds1 @ GenDecl IMPORT (a @ ImportSpec v1 p1 e1 # ImportSpec v2 p2 e2 # b) # ds2) s =
         getImportGroups g (ds1 @ GenDecl IMPORT (a @ ImportSpec v1 p1 e2 # b) # ds2) s"
proof -
  note L = import_records_neighbours[OF assms(1,2), of ds1 a p1 e1 p2 e2 b ds2]
  note R = import_records_merged[OF assms(1), of ds1 a p1 e2 b ds2]
  show ?thesis
    unfolding getImportGroups_records L R
    by (simp add: group_records_append group_records_Cons group_step_merge[OF assms(3)]
          split: sum.splits)
qed

section \<open>The classifier and the standard string notions\<close>

lemma not_internal_iff:
  "isInternalPrivateImport path settings \<longleftrightarrow>
     (\<exists>d \<in> set (InternalPrivateDomains settings). sublist d path)"
  by (simp add: isInternalPrivateImport_def isInternalPrivateImport_loop_iff Contains_iff_sublist)

lemma not_sublist_example: "\<not> sublist ''corp.io'' ''fmt''"
  by (simp add: Contains_iff_sublist[symmetric] HasPrefix_def)

section \<open>Claims about the classifier\<close>

text \<open>
  C8. The classifier is total: for every path, every configuration and every state of
  the file system, \<open>getImportType\<close> returns one of the four type strings; no branch of it
  can fail.
\<close>

theorem getImportType_total:
  "getImportType goroot_src path settings = ''builtin''
   \<or> getImportType goroot_src path settings = ''public_open_source_or_third_party''
   \<or> getImportType goroot_src path settings = ''internal_private''
   \<or> getImportType goroot_src path settings = ''own_module''"
  by (simp add: getImportType_def)

text \<open>
  C5. A path that contains one of the configured internal-private domains and also
  starts with the own-module prefix is classified internal-private: the domain test
  comes first.
\<close>

theorem internal_private_precedes_own_module:
  assumes "d \<in> set (InternalPrivateDomains settings)" and "sublist d path"
    and "prefix (SelfModule settings) path"
  shows "getImportType goroot_src path settings = ''internal_private''"
  using assms by (auto simp: getImportType_def not_internal_iff)

text \<open>An instance: a path under the own-module prefix that also contains the domain.\<close>

theorem internal_private_precedes_own_module_witness:
  "''corp.io'' \<in> set (InternalPrivateDomains \<lparr>SelfModule = ''corp.io/app'', InternalPrivateDomains = [''corp.io'']\<rparr>)
   \<and> sublist ''corp.io'' ''corp.io/app/db''
   \<and> prefix (SelfModule \<lparr>SelfModule = ''corp.io/app'', InternalPrivateDomains = [''corp.io'']\<rparr>) ''corp.io/app/db''
   \<and> getImportType example_goroot ''corp.io/app/db''
        \<lparr>SelfModule = ''corp.io/app'', InternalPrivateDomains = [''corp.io'']\<rparr> = ''internal_private''"
proof -
  let ?s = "\<lparr>SelfModule = ''corp.io/app'', InternalPrivateDomains = [''corp.io'']\<rparr>"
  have a: "''corp.io'' \<in> set (InternalPrivateDomains ?s)" by simp
  have b: "sublist ''corp.io'' ''corp.io/app/db''"
    by (simp add: Contains_iff_sublist[symmetric] HasPrefix_def)
  have c: "prefix (SelfModule ?s) ''corp.io/app/db''"
    by (simp add: HasPrefix_iff_prefix[symmetric] HasPrefix_def)
  from a b c internal_private_precedes_own_module[OF a b c, of example_goroot]
  show ?thesis by blast
qed

text \<open>
  C2, as the claim states it, fails: with an empty \<open>SelfModule\<close> the path \<open>fmt\<close>, which
  contains no configured domain, is classified own-module, because
  \<^verbatim>\<open>strings.HasPrefix(path, "")\<close> holds for every path.
\<close>

theorem empty_prefix_is_own_module:
  "SelfModule \<lparr>SelfModule = [], InternalPrivateDomains = [''corp.io'']\<rparr> = []
   \<and> \<not> isInternalPrivateImport ''fmt'' \<lparr>SelfModule = [], InternalPrivateDomains = [''corp.io'']\<rparr>
   \<and> getImportType example_goroot ''fmt''
         \<lparr>SelfModule = [], InternalPrivateDomains = [''corp.io'']\<rparr> = ''own_module''"
  by (simp add: getImportType_def isInternalPrivateImport_def HasPrefix_def)

text \<open>
  C2, amended. For every configuration and every path that contains none of the
  internal-private domains, the classifier returns own-module exactly when \<open>SelfModule\<close>
  is a prefix of the path, the empty prefix included: with an empty \<open>SelfModule\<close> every
  such path is own-module, and a path that \<open>SelfModule\<close> is no prefix of is classified
  builtin or third-party.
\<close>

theorem own_module_iff_prefix:
  assumes "\<not> (\<exists>d \<in> set (InternalPrivateDomains settings). sublist d path)"
  shows "(getImportType goroot_src path settings = ''own_module''
            \<longleftrightarrow> prefix (SelfModule settings) path)
       \<and> (SelfModule settings = [] \<longrightarrow>
            getImportType goroot_src path settings = ''own_module'')
       \<and> (\<not> prefix (SelfModule settings) path \<longrightarrow>
            getImportType goroot_src path settings = ''builtin''
            \<or> getImportType goroot_src path settings = ''public_open_source_or_third_party'')"
  using assms by (auto simp: getImportType_def not_internal_iff HasPrefix_iff_prefix)

text \<open>An instance: the empty prefix and a standard-library path.\<close>

theorem own_module_iff_prefix_witness:
  "\<not> (\<exists>d \<in> set (InternalPrivateDomains \<lparr>SelfModule = [], InternalPrivateDomains = [''corp.io'']\<rparr>).
         sublist d ''fmt'')
   \<and> prefix (SelfModule \<lparr>SelfModule = [], InternalPrivateDomains = [''corp.io'']\<rparr>) ''fmt''
   \<and> getImportType example_goroot ''fmt''
        \<lparr>SelfModule = [], InternalPrivateDomains = [''corp.io'']\<rparr> = ''own_module''"
proof -
  let ?s = "\<lparr>SelfModule = [], InternalPrivateDomains = [''corp.io'']\<rparr>"
  have h: "\<not> (\<exists>d \<in> set (InternalPrivateDomains ?s). sublist d ''fmt'')"
    by (simp add: not_sublist_example)
  have e: "SelfModule ?s = []" by simp
  from own_module_iff_prefix[OF h, of example_goroot] e
  have "getImportType example_goroot ''fmt'' ?s = ''own_module''" by blast
  with h show ?thesis by simp
qed

section \<open>Claims about the grouper\<close>

text \<open>
  C7. For every file whose import records are \<open>rs\<close>, and every configuration, the grouper
  returns one group per maximal run of consecutive records of one type, in file order:
  the runs concatenate to \<open>rs\<close>, each run is non-empty and of one type, two neighbouring
  runs differ in type, and each group spans its run from the first start line to the last
  end line. No records give no groups. (Every sequence of records is the records of a
  file: \<open>import_records_file_of_records\<close>.)
\<close>

theorem grouper_gives_maximal_runs:
  assumes "import_records node = Inr rs"
  shows "getImportGroups g node s =
           Inr (map (group_of_run g s) (maximal_runs (record_type g s) rs))
       \<and> concat (maximal_runs (record_type g s) rs) = rs
       \<and> (\<forall>run \<in> set (maximal_runs (record_type g s) rs).
             run \<noteq> [] \<and> (\<forall>x \<in> set run. record_type g s x = record_type g s (hd run)))
       \<and> (\<forall>i. Suc i < length (maximal_runs (record_type g s) rs) \<longrightarrow>
             record_type g s (hd (maximal_runs (record_type g s) rs ! Suc i))
               \<noteq> record_type g s (hd (maximal_runs (record_type g s) rs ! i)))
       \<and> (rs = [] \<longrightarrow> getImportGroups g node s = Inr [])"
proof -
  have a: "getImportGroups g node s =
           Inr (map (group_of_run g s) (maximal_runs (record_type g s) rs))"
    using assms by (simp add: getImportGroups_records close_groups_initial)
  then have e: "rs = [] \<longrightarrow> getImportGroups g node s = Inr []" by simp
  from a e show ?thesis
    using concat_maximal_runs[of "record_type g s" rs]
      maximal_runs_nonempty[of _ "record_type g s" rs]
      maximal_runs_constant[of _ "record_type g s" rs]
      maximal_runs_adjacent[of _ "record_type g s" rs]
    by blast
qed

text \<open>An instance: the example file gives a group for lines 3-4 and one for line 8.\<close>

theorem grouper_gives_maximal_runs_witness:
  "import_records example_file =
     Inr [(''fmt'', 3, 3), (''os'', 4, 4), (''gh.com/x'', 8, 8)]
   \<and> getImportGroups example_goroot example_file example_settings =
     Inr [\<lparr>startLine = 3, endLine = 4, importType = ''builtin''\<rparr>,
          \<lparr>startLine = 8, endLine = 8, importType = ''public_open_source_or_third_party''\<rparr>]"
proof -
  have h: "import_records example_file =
     Inr [(''fmt'', 3, 3), (''os'', 4, 4), (''gh.com/x'', 8, 8)]"
    by (simp add: example_file_def quoted_def)
  have fmt: "record_type example_goroot example_settings (''fmt'', a, b) = ''builtin''" for a b :: line
    by (simp add: record_type_def getImportType_def isInternalPrivateImport_def HasPrefix_def
          isBuiltinImport_def example_goroot_def example_settings_def)
  have os: "record_type example_goroot example_settings (''os'', a, b) = ''builtin''" for a b :: line
    by (simp add: record_type_def getImportType_def isInternalPrivateImport_def HasPrefix_def
          isBuiltinImport_def example_goroot_def example_settings_def)
  have gh: "record_type example_goroot example_settings (''gh.com/x'', a, b) =
      ''public_open_source_or_third_party''" for a b :: line
    by (simp add: record_type_def getImportType_def isInternalPrivateImport_def HasPrefix_def
          isBuiltinImport_def example_goroot_def example_settings_def)
  from grouper_gives_maximal_runs[OF h, of example_goroot example_settings]
  have "getImportGroups example_goroot example_file example_settings =
      Inr (map (group_of_run example_goroot example_settings)
        (maximal_runs (record_type example_goroot example_settings)
           [(''fmt'', 3, 3), (''os'', 4, 4), (''gh.com/x'', 8, 8)]))"
    by blast
  then have "getImportGroups example_goroot example_file example_settings =
     Inr [\<lparr>startLine = 3, endLine = 4, importType = ''builtin''\<rparr>,
          \<lparr>startLine = 8, endLine = 8, importType = ''public_open_source_or_third_party''\<rparr>]"
    by (simp add: fmt os gh group_of_run_def)
  with h show ?thesis by simp
qed

text \<open>
  C10. Group boundaries depend on type changes only. Two consecutive imports of one type,
  in two import declarations or in one, with any lines whatever, are grouped exactly as
  the single import that spans from the start of the first to the end of the second: the
  end line of the first and the start line of the second are never looked at. Alone in a
  file they form one group, on which the spacing loop finds nothing to compare.
\<close>

theorem same_type_neighbours_share_a_group:
  assumes "2 \<le> length v1" and "2 \<le> length v2"
    and "getImportType g (butlast (tl v1)) s = getImportType g (butlast (tl v2)) s"
  shows "getImportGroups g
           (ds1 @ GenDecl IMPORT (a @ [ImportSpec v1 p1 e1])
              # GenDecl IMPORT (ImportSpec v2 p2 e2 # b) # ds2) s
         = getImportGroups g (ds1 @ GenDecl IMPORT (a @ ImportSpec v1 p1 e2 # b) # ds2) s
       \<and> getImportGroups g
           (ds1 @ GenDecl IMPORT (a @ ImportSpec v1 p1 e1 # ImportSpec v2 p2 e2 # b) # ds2) s
         = getImportGroups g (ds1 @ GenDecl IMPORT (a @ ImportSpec v1 p1 e2 # b) # ds2) s
       \<and> getImportGroups g
           [GenDecl IMPORT [ImportSpec v1 p1 e1], GenDecl IMPORT [ImportSpec v2 p2 e2]] s
         = Inr [\<lparr>startLine = p1, endLine = e2,
                 importType = getImportType g (butlast (tl v1)) s\<rparr>]
       \<and> spacing_loop
           [\<lparr>startLine = p1, endLine = e2, importType = getImportType g (butlast (tl v1)) s\<rparr>] 0
           [\<lparr>startLine = p1, endLine = e2, importType = getImportType g (butlast (tl v1)) s\<rparr>]
         = None"
proof -
  note n = getImportGroups_neighbours[OF assms]
  have one: "getImportGroups g
           (ds1 @ GenDecl IMPORT (a @ [ImportSpec v1 p1 e1])
              # GenDecl IMPORT (ImportSpec v2 p2 e2 # b) # ds2) s
         = getImportGroups g (ds1 @ GenDecl IMPORT (a @ ImportSpec v1 p1 e2 # b) # ds2) s"
    using n[of ds1 a p1 e1 p2 e2 b ds2]
      import_records_two_blocks[of ds1 "a @ [ImportSpec v1 p1 e1]" "ImportSpec v2 p2 e2 # b" ds2]
    by (simp add: getImportGroups_records)
  have two: "getImportGroups g
           [GenDecl IMPORT [ImportSpec v1 p1 e1], GenDecl IMPORT [ImportSpec v2 p2 e2]] s
         = Inr [\<lparr>startLine = p1, endLine = e2,
                 importType = getImportType g (butlast (tl v1)) s\<rparr>]"
    using assms
    by (simp add: getImportGroups_def group_step_def close_groups_def)
  from one n two show ?thesis by simp
qed

text \<open>An instance: two standard-library imports in two declarations, four blank lines apart.\<close>

theorem same_type_neighbours_share_a_group_witness:
  "2 \<le> length (quoted ''fmt'') \<and> 2 \<le> length (quoted ''os'')
   \<and> getImportType example_goroot (butlast (tl (quoted ''fmt''))) example_settings
       = getImportType example_goroot (butlast (tl (quoted ''os''))) example_settings
   \<and> getImportGroups example_goroot
       [GenDecl IMPORT [ImportSpec (quoted ''fmt'') 3 3],
        GenDecl IMPORT [ImportSpec (quoted ''os'') 8 8]] example_settings
       = Inr [\<lparr>startLine = 3, endLine = 8, importType = ''builtin''\<rparr>]"
proof -
  have a: "2 \<le> length (quoted ''fmt'')" by (simp add: quoted_def)
  have b: "2 \<le> length (quoted ''os'')" by (simp add: quoted_def)
  have fmt: "getImportType example_goroot (butlast (tl (quoted ''fmt''))) example_settings = ''builtin''"
    by (simp add: quoted_def getImportType_def isInternalPrivateImport_def HasPrefix_def
          isBuiltinImport_def example_goroot_def example_settings_def)
  have os: "getImportType example_goroot (butlast (tl (quoted ''os''))) example_settings = ''builtin''"
    by (simp add: quoted_def getImportType_def isInternalPrivateImport_def HasPrefix_def
          isBuiltinImport_def example_goroot_def example_settings_def)
  have c: "getImportType example_goroot (butlast (tl (quoted ''fmt''))) example_settings
       = getImportType example_goroot (butlast (tl (quoted ''os''))) example_settings"
    by (simp only: fmt os)
  from same_type_neighbours_share_a_group[OF a b c, of "[]" "[]" 3 3 8 8 "[]" "[]"]
  have "getImportGroups example_goroot
       [GenDecl IMPORT [ImportSpec (quoted ''fmt'') 3 3],
        GenDecl IMPORT [ImportSpec (quoted ''os'') 8 8]] example_settings
       = Inr [\<lparr>startLine = 3, endLine = 8,
               importType =
                 getImportType example_goroot (butlast (tl (quoted ''fmt''))) example_settings\<rparr>]"
    by blast
  then have "getImportGroups example_goroot
       [GenDecl IMPORT [ImportSpec (quoted ''fmt'') 3 3],
        GenDecl IMPORT [ImportSpec (quoted ''os'') 8 8]] example_settings
       = Inr [\<lparr>startLine = 3, endLine = 8, importType = ''builtin''\<rparr>]"
    by (simp only: fmt)
  with a b c show ?thesis by blast
qed

section \<open>Claims about the validator\<close>

text \<open>
  C1, as the claim states it, fails: a single third-party group does not pass the
  sequence check, since position 0 is compared with \<open>builtin\<close>.
\<close>

theorem single_third_party_group_rejected:
  "\<not> areImportsGrouped
       [\<lparr>startLine = 3, endLine = 4, importType = ''public_open_source_or_third_party''\<rparr>]
   \<and> validate ''main.go''
       [\<lparr>startLine = 3, endLine = 4, importType = ''public_open_source_or_third_party''\<rparr>]
     = Some (UngroupedImports ''main.go'')"
  by (simp add: validate_def areImportsGrouped_def expectedSequence_def)

text \<open>
  C1, amended. For every sequence of exactly one group, the spacing check passes whatever
  the type of the group, and the sequence check passes exactly when the type is
  \<open>builtin\<close>; any other single group is reported as ungrouped imports.
\<close>

theorem single_group_checks:
  "areImportsGrouped [g] = (importType g = ''builtin'')
   \<and> spacing_loop [g] 0 [g] = None
   \<and> validate f [g] = (if importType g = ''builtin'' then None else Some (UngroupedImports f))"
  by (simp add: validate_def areImportsGrouped_def expectedSequence_def)

text \<open>
  C3, as the claim states it, fails: in \<open>five_groups\<close> the type \<open>builtin\<close> appears at
  position 0, a third-party group follows, and \<open>builtin\<close> comes back at position 4; the
  sequence check accepts, and so does the whole validation.
\<close>

theorem reappearance_after_fourth_group_accepted:
  "importType (five_groups ! 1) \<noteq> importType (five_groups ! 0)
   \<and> importType (five_groups ! 4) = importType (five_groups ! 0)
   \<and> areImportsGrouped five_groups
   \<and> validate ''main.go'' five_groups = None"
  by (simp add: five_groups_def validate_def areImportsGrouped_def expectedSequence_def)

text \<open>
  C3, amended. For every group sequence in which a type appears, a different type
  intervenes, and the first type comes back at a position among the first four, the
  sequence check fails and the validation reports ungrouped imports. (A comeback at
  position 4 or later is not compared with anything.)
\<close>

theorem reappearance_within_first_four_rejected:
  assumes "i < j" and "j < k" and "k < length gs" and "k < 4"
    and "importType (gs ! j) \<noteq> importType (gs ! i)"
    and "importType (gs ! k) = importType (gs ! i)"
  shows "\<not> areImportsGrouped gs \<and> validate f gs = Some (UngroupedImports f)"
proof -
  have "\<not> areImportsGrouped gs"
  proof
    assume ok: "areImportsGrouped gs"
    from assms have ik: "i < k" "i < length gs" "i < 4" by simp_all
    from ok ik have "importType (gs ! i) = expectedSequence ! i"
      by (simp add: areImportsGrouped_iff)
    moreover from ok assms have "importType (gs ! k) = expectedSequence ! k"
      by (simp add: areImportsGrouped_iff)
    ultimately have "expectedSequence ! i = expectedSequence ! k"
      using assms by simp
    with ik assms show False
      using distinct_expectedSequence
      by (simp add: nth_eq_iff_index_eq length_expectedSequence)
  qed
  then show ?thesis by (simp add: validate_def)
qed

text \<open>An instance: \<open>split_groups\<close>, where \<open>builtin\<close> comes back at position 2.\<close>

theorem reappearance_within_first_four_rejected_witness:
  "(0::nat) < 1 \<and> (1::nat) < 2 \<and> 2 < length split_groups \<and> (2::nat) < 4
   \<and> importType (split_groups ! 1) \<noteq> importType (split_groups ! 0)
   \<and> importType (split_groups ! 2) = importType (split_groups ! 0)
   \<and> \<not> areImportsGrouped split_groups
   \<and> validate ''main.go'' split_groups = Some (UngroupedImports ''main.go'')"
proof -
  have a: "(0::nat) < 1" and b: "(1::nat) < 2" and d: "(2::nat) < 4" by simp_all
  have c: "2 < length split_groups" by (simp add: split_groups_def)
  have e: "importType (split_groups ! 1) \<noteq> importType (split_groups ! 0)"
    by (simp add: split_groups_def)
  have f: "importType (split_groups ! 2) = importType (split_groups ! 0)"
    by (simp add: split_groups_def)
  from a b c d e f reappearance_within_first_four_rejected[OF a b c d e f, of "''main.go''"]
  show ?thesis by blast
qed

text \<open>
  C9. The verdict of the sequence check depends on the first four groups only: it is the
  verdict on the first four, appending groups to a sequence of four or more never changes
  it, and neither does replacing the group at any position from 4 on.
\<close>

theorem sequence_check_first_four:
  "areImportsGrouped gs = areImportsGrouped (take 4 gs)
   \<and> (4 \<le> length gs \<longrightarrow> areImportsGrouped (gs @ extra) = areImportsGrouped gs)
   \<and> (\<forall>k. 4 \<le> k \<and> k < length gs \<longrightarrow> areImportsGrouped (gs[k := g]) = areImportsGrouped gs)"
proof -
  have a: "areImportsGrouped gs = areImportsGrouped (take 4 gs)"
    by (auto simp: areImportsGrouped_iff)
  have b: "areImportsGrouped (gs @ extra) = areImportsGrouped gs" if "4 \<le> length gs"
    using that by (auto simp: areImportsGrouped_iff nth_append)
  have c: "areImportsGrouped (gs[k := g]) = areImportsGrouped gs" if "4 \<le> k" for k
    using that by (auto simp: areImportsGrouped_iff nth_list_update)
  from a b c show ?thesis by blast
qed

text \<open>An instance: \<open>five_groups\<close>, extended and changed from position 4 on.\<close>

theorem sequence_check_first_four_witness:
  "4 \<le> length five_groups
   \<and> areImportsGrouped five_groups
   \<and> areImportsGrouped (five_groups @ split_groups)
   \<and> areImportsGrouped (five_groups[4 := \<lparr>startLine = 11, endLine = 12, importType = ''own_module''\<rparr>])"
proof -
  have a: "4 \<le> length five_groups" by (simp add: five_groups_def)
  have b: "areImportsGrouped five_groups"
    by (simp add: five_groups_def areImportsGrouped_def expectedSequence_def)
  have c: "(4::nat) \<le> 4 \<and> 4 < length five_groups" by (simp add: five_groups_def)
  from a b c
    sequence_check_first_four[of five_groups split_groups
      "\<lparr>startLine = 11, endLine = 12, importType = ''own_module''\<rparr>"]
  show ?thesis by blast
qed

text \<open>
  C4. For a sequence that passes the sequence check, the validation succeeds exactly when
  every group starts two lines after the end of the group before it. At the first pair
  that deviates it reports a missing blank line before the start line of the later group.
  A pair with any number of blank lines other than one, none and two or more alike, makes
  it fail.
\<close>

theorem spacing_check_exactly_one_blank_line:
  assumes "areImportsGrouped gs"
  shows "(validate f gs = None \<longleftrightarrow>
           (\<forall>i. 0 < i \<and> i < length gs \<longrightarrow> startLine (gs ! i) = endLine (gs ! (i - 1)) + 2))
       \<and> (\<forall>i. 0 < i \<and> i < length gs
              \<and> startLine (gs ! i) \<noteq> endLine (gs ! (i - 1)) + 2
              \<and> (\<forall>j. 0 < j \<and> j < i \<longrightarrow> startLine (gs ! j) = endLine (gs ! (j - 1)) + 2)
            \<longrightarrow> validate f gs = Some (MissingBlankLine (startLine (gs ! i))))
       \<and> (\<forall>i n. 0 < i \<and> i < length gs \<and> n < 2 ^ 64 \<and> n \<noteq> 1
              \<and> startLine (gs ! i) = endLine (gs ! (i - 1)) + 1 + of_nat n
            \<longrightarrow> validate f gs \<noteq> None)"
proof -
  have v: "validate f gs = spacing_loop gs 0 (drop 0 gs)"
    using assms by (rule validate_spacing)
  have a: "validate f gs = None \<longleftrightarrow>
           (\<forall>i. 0 < i \<and> i < length gs \<longrightarrow> startLine (gs ! i) = endLine (gs ! (i - 1)) + 2)"
    unfolding v using spacing_loop_None[of 0 gs] by auto
  have b: "validate f gs = Some (MissingBlankLine (startLine (gs ! i)))"
    if "0 < i" "i < length gs" "startLine (gs ! i) \<noteq> endLine (gs ! (i - 1)) + 2"
      "\<forall>j. 0 < j \<and> j < i \<longrightarrow> startLine (gs ! j) = endLine (gs ! (j - 1)) + 2" for i
    unfolding v using that by (intro spacing_loop_Some) auto
  have c: "validate f gs \<noteq> None"
    if "0 < i" "i < length gs" "n < 2 ^ 64" "n \<noteq> 1"
      "startLine (gs ! i) = endLine (gs ! (i - 1)) + 1 + of_nat n" for i n
  proof -
    from that have "startLine (gs ! i) \<noteq> endLine (gs ! (i - 1)) + 2"
      using blank_lines_not_one[of n "endLine (gs ! (i - 1))"] by simp
    with that a show ?thesis by blast
  qed
  from a b c show ?thesis by blast
qed

text \<open>Two instances: no blank line between two ordered groups, and \<open>five_groups\<close>.\<close>

theorem spacing_check_exactly_one_blank_line_witness:
  "areImportsGrouped
     [\<lparr>startLine = 1, endLine = 2, importType = ''builtin''\<rparr>,
      \<lparr>startLine = 3, endLine = 4, importType = ''public_open_source_or_third_party''\<rparr>]
   \<and> validate ''main.go''
     [\<lparr>startLine = 1, endLine = 2, importType = ''builtin''\<rparr>,
      \<lparr>startLine = 3, endLine = 4, importType = ''public_open_source_or_third_party''\<rparr>]
     = Some (MissingBlankLine 3)
   \<and> areImportsGrouped five_groups \<and> validate ''main.go'' five_groups = None"
proof -
  let ?gs = "[\<lparr>startLine = 1, endLine = 2, importType = ''builtin''\<rparr>,
      \<lparr>startLine = 3, endLine = 4, importType = ''public_open_source_or_third_party''\<rparr>]"
  have a: "areImportsGrouped ?gs"
    by (simp add: areImportsGrouped_def expectedSequence_def)
  have b: "areImportsGrouped five_groups"
    by (simp add: five_groups_def areImportsGrouped_def expectedSequence_def)
  have "(0::nat) < 1 \<and> 1 < length ?gs \<and> startLine (?gs ! 1) \<noteq> endLine (?gs ! (1 - 1)) + 2
      \<and> (\<forall>j. 0 < j \<and> j < (1::nat) \<longrightarrow> startLine (?gs ! j) = endLine (?gs ! (j - 1)) + 2)"
    by auto
  with spacing_check_exactly_one_blank_line[OF a, of "''main.go''"]
  have c: "validate ''main.go'' ?gs = Some (MissingBlankLine (startLine (?gs ! 1)))"
    by blast
  have "\<forall>i. 0 < i \<and> i < length five_groups \<longrightarrow>
      startLine (five_groups ! i) = endLine (five_groups ! (i - 1)) + 2"
    by (simp add: five_groups_def nth_Cons' less_Suc_eq)
  with spacing_check_exactly_one_blank_line[OF b, of "''main.go''"]
  have d: "validate ''main.go'' five_groups = None" by blast
  from a b c d show ?thesis by simp
qed

section \<open>Claims about the entry point\<close>

text \<open>
  C6, as the claim states it, fails: when the parser rejects the file, \<open>Run\<close> does not
  return a value; \<^verbatim>\<open>log.Fatalf\<close> ends the process.
\<close>

theorem parse_failure_aborts_process:
  "Run parse_failure_environment ''bad.go'' ()
     = LogFatal ''Failed to parse file: expected package''
   \<and> \<not> returns_value (Run parse_failure_environment ''bad.go'' ())"
  by (simp add: Run_def parse_failure_environment_def returns_value_def)

text \<open>
  C6, amended. When the settings decode and the parser rejects the file, \<open>Run\<close> ends the
  process with the fatal message \<^verbatim>\<open>Failed to parse file\<close> and the parser's error; the
  grouping and spacing checks do not run, so the outcome is the same under every state of
  the standard-library lookup.
\<close>

theorem parse_failure_is_fatal:
  assumes "Marshal env metaData = Inr marshal" and "Unmarshal env marshal = Inr settings"
    and "ParseFile env filename = Inl err"
  shows "Run env filename metaData = LogFatal (''Failed to parse file: '' @ err)
       \<and> Run (env\<lparr>goroot := other_goroot\<rparr>) filename metaData = Run env filename metaData"
  using assms by (simp add: Run_def)

text \<open>An instance: the environment whose parser rejects every file.\<close>

theorem parse_failure_is_fatal_witness:
  "Marshal parse_failure_environment () = Inr ''{}''
   \<and> Unmarshal parse_failure_environment ''{}'' = Inr example_settings
   \<and> ParseFile parse_failure_environment ''bad.go'' = Inl ''expected package''
   \<and> Run parse_failure_environment ''bad.go'' () =
       LogFatal ''Failed to parse file: expected package''"
proof -
  have a: "Marshal parse_failure_environment () = Inr ''{}''"
    and b: "Unmarshal parse_failure_environment ''{}'' = Inr example_settings"
    and c: "ParseFile parse_failure_environment ''bad.go'' = Inl ''expected package''"
    by (simp_all add: parse_failure_environment_def)
  from a b c parse_failure_is_fatal[OF a b c] show ?thesis by simp
qed

end
